theory Spec2Isabelle
  imports Main "HOL-Library.Product_Lexorder" "HOL-Library.AList" "HOL-Library.Multiset"
begin

section \<open>City-Pulse: the trend subsystem\<close>

text \<open>
  A shallow embedding of \<^verbatim>\<open>app/region_map.py\<close> and \<^verbatim>\<open>app/routers/trends.py\<close>
  together with the tables of \<^verbatim>\<open>app/models.py\<close> that the trends router reads and writes.

  Conventions of the embedding.
  \<^item> A table is the list of its rows, in storage order. A \<^verbatim>\<open>select\<close> without
    \<^verbatim>\<open>ORDER BY\<close> returns the matching rows in storage order; \<^verbatim>\<open>ORDER BY\<close> is a stable
    sort of the storage order; \<^verbatim>\<open>db.add\<close> followed by \<^verbatim>\<open>flush\<close> appends.
  \<^item> The position of a row in its table plays the part of the object identity that the ORM
    keeps for a loaded row: an attribute assignment on a loaded row is a list update at its
    position. The surrogate key \<^verbatim>\<open>Trend.id\<close> is assigned by the engine and never read by
    the router, so it is not a field of the record.
  \<^item> Python integers are \<open>int\<close>. A Python \<^verbatim>\<open>str\<close> is a \<open>string\<close> whose characters are the
    code points below 256.
  \<^item> A timestamp is a natural number. The caller supplies the value that
    \<^verbatim>\<open>datetime.now(timezone.utc)\<close> returns, and the value of the column default
    \<^verbatim>\<open>CURRENT_TIMESTAMP\<close>.
  \<^item> A handler returns the state of the database at the point where it returns or raises,
    and either the exception or the response.
\<close>

subsection \<open>\<^verbatim>\<open>region_map.py\<close>\<close>

datatype region_param = RStr string | RInt int

datatype value_error = ValueError

definition REGION_SAN_DIEGO_ID :: int where
  "REGION_SAN_DIEGO_ID = 0"

text \<open>
  \<^verbatim>\<open>str.strip()\<close> removes the leading and trailing white space; below 256 the white space
  characters of Python are 9 to 13, 28 to 32, 133 and 160.
\<close>

definition isspace :: "char \<Rightarrow> bool" where
  "isspace c =
     (let n = (of_char c :: nat)
      in (9 \<le> n \<and> n \<le> 13) \<or> (28 \<le> n \<and> n \<le> 32) \<or> n = 133 \<or> n = 160)"

definition str_strip :: "string \<Rightarrow> string" where
  "str_strip s = rev (dropWhile isspace (rev (dropWhile isspace s)))"

text \<open>
  \<^verbatim>\<open>str.lower()\<close> below 256: the letters A to Z, and the letters 192 to 222 other than the
  multiplication sign 215, move up by 32; every other character stays.
\<close>

definition lower_char :: "char \<Rightarrow> char" where
  "lower_char c =
     (let n = (of_char c :: nat)
      in if (65 \<le> n \<and> n \<le> 90) \<or> (192 \<le> n \<and> n \<le> 222 \<and> n \<noteq> 215)
         then char_of (n + 32) else c)"

definition str_lower :: "string \<Rightarrow> string" where
  "str_lower s = map lower_char s"

text \<open>\<^verbatim>\<open>s.replace("-", " ")\<close>: every occurrence of a single character is replaced.\<close>

definition str_replace :: "char \<Rightarrow> char \<Rightarrow> string \<Rightarrow> string" where
  "str_replace a b s = map (\<lambda>c. if c = a then b else c) s"

fun parse_region_param :: "region_param \<Rightarrow> value_error + int" where
  "parse_region_param (RInt v) =
     (if v = REGION_SAN_DIEGO_ID then Inr v else Inl ValueError)"
| "parse_region_param (RStr v) =
     (let s = str_lower (str_strip v)
      in if s = ''0'' then Inr REGION_SAN_DIEGO_ID
         else let normalized = str_replace CHR ''-'' CHR '' '' s
              in if normalized = ''san diego'' then Inr REGION_SAN_DIEGO_ID
                 else Inl ValueError)"

subsection \<open>\<^verbatim>\<open>models.py\<close>: the tables\<close>

type_synonym datetime = nat

text \<open>
  Of an event the trends router reads the primary key, the region and the title; of an
  interaction row only the event it belongs to (\<^verbatim>\<open>count(id)\<close> counts rows, the key is
  never null).
\<close>

record event =
  e_id :: int
  e_region_id :: int
  e_title :: string

record interaction =
  i_user_id :: int
  i_event_id :: int

record trend =
  t_region_id :: int
  t_event_id :: int
  rank :: int
  attendance_count :: int
  comments_count :: int
  likes_count :: int
  updated_at :: datetime

record db =
  events :: "event list"
  event_attending :: "interaction list"
  event_comments :: "interaction list"
  event_likes :: "interaction list"
  trends :: "trend list"

subsection \<open>\<^verbatim>\<open>schemas.py\<close>: bodies and responses\<close>

record trend_rebuild_body =
  rb_region :: region_param

record trend_update_body =
  ub_region :: region_param
  ub_event_id :: int
  ub_rank :: "int option"

record trend_entry_read =
  r_event_id :: int
  r_rank :: int
  r_title :: string
  r_attendance_count :: int
  r_comments_count :: int
  r_likes_count :: int
  r_updated_at :: datetime

record rebuild_response =
  success :: bool
  count :: int

datatype success_response = SuccessResponse

text \<open>
  What a handler can raise: \<^verbatim>\<open>HTTPException\<close> with its status code (the detail text is
  left out), and the \<^verbatim>\<open>MultipleResultsFound\<close> of \<^verbatim>\<open>scalar_one_or_none\<close>.
\<close>

datatype error = HTTPException nat | MultipleResultsFound

subsection \<open>Python dictionaries and SQL aggregates\<close>

text \<open>
  A dictionary is the list of its items in insertion order, with distinct keys. Storing under
  a key that is present replaces the value and keeps the position.
\<close>

definition dict_of :: "('k \<times> 'v) list \<Rightarrow> ('k \<times> 'v) list" where
  "dict_of items = fold (\<lambda>(k, v) d. AList.update k v d) items []"

definition dict_get :: "('k \<times> 'v) list \<Rightarrow> 'k \<Rightarrow> 'v \<Rightarrow> 'v" where
  "dict_get d k dflt = (case map_of d k of None \<Rightarrow> dflt | Some v \<Rightarrow> v)"

text \<open>
  \<^verbatim>\<open>select(T.event_id, count(T.id)).where(T.event_id.in_(event_ids)).group_by(T.event_id)\<close>:
  one result row for each event id that occurs among the selected rows.
\<close>

definition count_by_event :: "interaction list \<Rightarrow> int list \<Rightarrow> (int \<times> int) list" where
  "count_by_event tbl event_ids =
     (let sel = filter (\<lambda>r. i_event_id r \<in> set event_ids) tbl
      in map (\<lambda>k. (k, int (length (filter (\<lambda>r. i_event_id r = k) sel))))
           (remdups (map i_event_id sel)))"

subsection \<open>\<^verbatim>\<open>routers/trends.py\<close>\<close>

type_synonym entry = "int \<times> int \<times> int \<times> int"

fun order_key :: "entry \<Rightarrow> int \<times> int \<times> int" where
  "order_key (event_id, att, com, lik) = (- att, - com, - lik)"

definition get_event_interaction_counts :: "db \<Rightarrow> int \<Rightarrow> (int \<times> int \<times> int \<times> int) list" where
  "get_event_interaction_counts d region_id =
     (let event_ids = map e_id (filter (\<lambda>e. e_region_id e = region_id) (events d))
      in if event_ids = [] then []
         else
           let by_event_att = dict_of (count_by_event (event_attending d) event_ids);
               by_event_com = dict_of (count_by_event (event_comments d) event_ids);
               by_event_lik = dict_of (count_by_event (event_likes d) event_ids)
           in dict_of (map (\<lambda>eid. (eid, (dict_get by_event_att eid 0,
                                           dict_get by_event_com eid 0,
                                           dict_get by_event_lik eid 0))) event_ids))"

text \<open>Lines 113 to 129: the sorted entries, and the rows built from them by \<^verbatim>\<open>enumerate\<close>.\<close>

definition sorted_events :: "(int \<times> int \<times> int \<times> int) list \<Rightarrow> entry list" where
  "sorted_events counts =
     sort_key order_key (map (\<lambda>(eid, (att, com, lik)). (eid, att, com, lik)) counts)"

definition ranked_rows :: "int \<Rightarrow> datetime \<Rightarrow> entry list \<Rightarrow> trend list" where
  "ranked_rows region_id now es =
     map (\<lambda>(rk, (event_id, att, com, lik)).
            \<lparr>t_region_id = region_id, t_event_id = event_id, rank = int rk,
             attendance_count = att, comments_count = com, likes_count = lik,
             updated_at = now\<rparr>)
         (enumerate 1 es)"

definition delete_trends :: "db \<Rightarrow> int \<Rightarrow> db" where
  "delete_trends d region_id =
     d\<lparr>trends := filter (\<lambda>t. t_region_id t \<noteq> region_id) (trends d)\<rparr>"

definition rebuild_trends ::
  "db \<Rightarrow> trend_rebuild_body \<Rightarrow> datetime \<Rightarrow> db \<times> (error + rebuild_response)" where
  "rebuild_trends d payload now =
     (case parse_region_param (rb_region payload) of
        Inl e \<Rightarrow> (d, Inl (HTTPException 400))
      | Inr region_id \<Rightarrow>
          let counts = get_event_interaction_counts d region_id
          in if counts = []
             then (delete_trends d region_id, Inr \<lparr>success = True, count = 0\<rparr>)
             else
               let es = sorted_events counts;
                   d1 = delete_trends d region_id
               in (d1\<lparr>trends := trends d1 @ ranked_rows region_id now es\<rparr>,
                   Inr \<lparr>success = True, count = int (length es)\<rparr>))"

text \<open>
  \<^verbatim>\<open>get_trends\<close>: the inner join of the trend rows with the events on
  \<^verbatim>\<open>Event.id == Trend.event_id\<close>, restricted to the region, ordered by rank, then
  \<^verbatim>\<open>offset\<close> and \<^verbatim>\<open>limit\<close>. The query parameters \<^verbatim>\<open>skip\<close> and \<^verbatim>\<open>limit\<close> reach
  the handler validated, as natural numbers.
\<close>

definition trend_entry :: "trend \<times> string \<Rightarrow> trend_entry_read" where
  "trend_entry p =
     (case p of (t, title) \<Rightarrow>
        \<lparr>r_event_id = t_event_id t, r_rank = rank t, r_title = title,
         r_attendance_count = attendance_count t, r_comments_count = comments_count t,
         r_likes_count = likes_count t, r_updated_at = updated_at t\<rparr>)"

definition join_trend_event :: "db \<Rightarrow> (trend \<times> string) list" where
  "join_trend_event d =
     concat (map (\<lambda>t. map (\<lambda>e. (t, e_title e))
                         (filter (\<lambda>e. e_id e = t_event_id t) (events d)))
                 (trends d))"

definition get_trends ::
  "db \<Rightarrow> region_param \<Rightarrow> nat \<Rightarrow> nat \<Rightarrow> error + trend_entry_read list" where
  "get_trends d region skip limit =
     (case parse_region_param region of
        Inl e \<Rightarrow> Inl (HTTPException 400)
      | Inr region_id \<Rightarrow>
          let rows = take limit (drop skip
                       (sort_key (\<lambda>(t, title). rank t)
                          (filter (\<lambda>(t, title). t_region_id t = region_id)
                             (join_trend_event d))))
          in Inr (map trend_entry rows))"

text \<open>\<^verbatim>\<open>db.get(Event, event_id)\<close>: lookup by primary key.\<close>

definition db_get_event :: "db \<Rightarrow> int \<Rightarrow> event option" where
  "db_get_event d event_id = find (\<lambda>e. e_id e = event_id) (events d)"

definition scalar_one_or_none :: "'a list \<Rightarrow> error + 'a option" where
  "scalar_one_or_none rs =
     (case rs of [] \<Rightarrow> Inr None
      | [r] \<Rightarrow> Inr (Some r)
      | _ \<Rightarrow> Inl MultipleResultsFound)"

text \<open>\<^verbatim>\<open>coalesce(max(Trend.rank), 0)\<close> over the rows of the region.\<close>

definition max_rank :: "db \<Rightarrow> int \<Rightarrow> int" where
  "max_rank d region_id =
     (case map rank (filter (\<lambda>t. t_region_id t = region_id) (trends d)) of
        [] \<Rightarrow> 0
      | r # rs \<Rightarrow> fold max rs r)"

text \<open>
  Lines 151 to 174, the upsert: the rows of the region for the event are loaded with their
  positions; a loaded row is assigned the counts and the time, a missing one is added at
  the bottom with the default of \<^verbatim>\<open>updated_at\<close>.
\<close>

definition upsert_trend ::
  "db \<Rightarrow> int \<Rightarrow> int \<Rightarrow> int \<times> int \<times> int \<Rightarrow> datetime \<Rightarrow> datetime \<Rightarrow> error + db" where
  "upsert_trend d region_id event_id c now server_now =
     (case c of (att, com, lik) \<Rightarrow>
        (case scalar_one_or_none
                (filter (\<lambda>(i, t). t_region_id t = region_id \<and> t_event_id t = event_id)
                   (enumerate 0 (trends d))) of
           Inl e \<Rightarrow> Inl e
         | Inr (Some (i, trend_row)) \<Rightarrow>
             Inr (d\<lparr>trends := (trends d)
                    [i := trend_row\<lparr>attendance_count := att, comments_count := com,
                                    likes_count := lik, updated_at := now\<rparr>]\<rparr>)
         | Inr None \<Rightarrow>
             let next_rank = max_rank d region_id + 1
             in Inr (d\<lparr>trends := trends d @
                       [\<lparr>t_region_id = region_id, t_event_id = event_id, rank = next_rank,
                         attendance_count = att, comments_count = com, likes_count = lik,
                         updated_at = server_now\<rparr>]\<rparr>)))"

text \<open>
  Lines 176 to 183, the reorder: the rows of the region are loaded in rank order, sorted
  by \<^verbatim>\<open>_order_key\<close>, and each loaded row is assigned its position.
\<close>

definition entry_of :: "trend \<Rightarrow> entry" where
  "entry_of t = (t_event_id t, attendance_count t, comments_count t, likes_count t)"

definition trend_key :: "nat \<times> trend \<Rightarrow> int \<times> int \<times> int" where
  "trend_key p = (case p of (i, t) \<Rightarrow> order_key (entry_of t))"

definition load_sorted :: "db \<Rightarrow> int \<Rightarrow> (nat \<times> trend) list" where
  "load_sorted d region_id =
     (let all_trends = sort_key (\<lambda>(i, t). rank t)
                         (filter (\<lambda>(i, t). t_region_id t = region_id)
                            (enumerate 0 (trends d)))
      in sort_key trend_key all_trends)"

definition assign_ranks :: "(nat \<times> trend) list \<Rightarrow> trend list \<Rightarrow> trend list" where
  "assign_ranks rows ts =
     fold (\<lambda>(rk, (i, t)) ts'. ts'[i := t\<lparr>rank := int rk\<rparr>]) (enumerate 1 rows) ts"

definition reorder_trends :: "db \<Rightarrow> int \<Rightarrow> db" where
  "reorder_trends d region_id =
     d\<lparr>trends := assign_ranks (load_sorted d region_id) (trends d)\<rparr>"

definition update_trends ::
  "db \<Rightarrow> trend_update_body \<Rightarrow> datetime \<Rightarrow> datetime \<Rightarrow> db \<times> (error + success_response)" where
  "update_trends d payload now server_now =
     (case parse_region_param (ub_region payload) of
        Inl e \<Rightarrow> (d, Inl (HTTPException 400))
      | Inr region_id \<Rightarrow>
          (case db_get_event d (ub_event_id payload) of
             None \<Rightarrow> (d, Inl (HTTPException 404))
           | Some ev \<Rightarrow>
               if e_region_id ev \<noteq> region_id then (d, Inl (HTTPException 404))
               else
                 let counts = get_event_interaction_counts d region_id;
                     c = dict_get counts (ub_event_id payload) (0, 0, 0)
                 in (case upsert_trend d region_id (ub_event_id payload) c now server_now of
                       Inl e \<Rightarrow> (d, Inl e)
                     | Inr d1 \<Rightarrow> (reorder_trends d1 region_id, Inr SuccessResponse))))"

subsection \<open>Vocabulary of the properties, and concrete inputs\<close>

text \<open>The three snapshot counts of a stored row.\<close>

definition counts_of :: "trend \<Rightarrow> int \<times> int \<times> int" where
  "counts_of t = (attendance_count t, comments_count t, likes_count t)"

text \<open>
  The tie-break order of the specification: the first triple is at least the second one,
  attendance first, then comments, then likes.
\<close>

fun lex_ge :: "int \<times> int \<times> int \<Rightarrow> int \<times> int \<times> int \<Rightarrow> bool" where
  "lex_ge (a1, c1, l1) (a2, c2, l2) =
     (a2 < a1 \<or> (a1 = a2 \<and> (c2 < c1 \<or> (c1 = c2 \<and> l2 \<le> l1))))"


text \<open>
  The normalisation of a region string: trimmed, lower case, hyphens as spaces.
\<close>

definition normalize_region :: "string \<Rightarrow> string" where
  "normalize_region s = str_replace CHR ''-'' CHR '' '' (str_lower (str_strip s))"

text \<open>
  The inputs that resolve according to the specification: the integer 0, a string whose
  normalisation is \<^verbatim>\<open>san diego\<close>, and the string \<^verbatim>\<open>0\<close>.
\<close>

definition claimed_region :: "region_param \<Rightarrow> bool" where
  "claimed_region v =
     (case v of RInt n \<Rightarrow> n = 0
      | RStr s \<Rightarrow> normalize_region s = ''san diego'' \<or> s = ''0'')"

text \<open>
  The inputs that resolve in the code: as before, and every string that is \<^verbatim>\<open>0\<close>
  once trimmed.
\<close>

definition accepted_region :: "region_param \<Rightarrow> bool" where
  "accepted_region v =
     (case v of RInt n \<Rightarrow> n = 0
      | RStr s \<Rightarrow> normalize_region s = ''san diego'' \<or> str_strip s = ''0'')"

text \<open>
  A database with three events in region 0 and one in region 1. The live counts are
  (2, 1, 1) for event 1, (2, 2, 0) for event 2 and (0, 0, 1) for event 3. Two trend rows are
  stored for region 0; the row of event 1 carries counts that are no longer the live ones.
\<close>

definition db1 :: db where
  "db1 =
     \<lparr>events = [\<lparr>e_id = 1, e_region_id = 0, e_title = ''a''\<rparr>,
                \<lparr>e_id = 2, e_region_id = 0, e_title = ''b''\<rparr>,
                \<lparr>e_id = 3, e_region_id = 0, e_title = ''c''\<rparr>,
                \<lparr>e_id = 4, e_region_id = 1, e_title = ''d''\<rparr>],
      event_attending = [\<lparr>i_user_id = 1, i_event_id = 1\<rparr>, \<lparr>i_user_id = 2, i_event_id = 1\<rparr>,
                         \<lparr>i_user_id = 1, i_event_id = 2\<rparr>, \<lparr>i_user_id = 2, i_event_id = 2\<rparr>],
      event_comments = [\<lparr>i_user_id = 1, i_event_id = 1\<rparr>, \<lparr>i_user_id = 1, i_event_id = 2\<rparr>,
                        \<lparr>i_user_id = 2, i_event_id = 2\<rparr>],
      event_likes = [\<lparr>i_user_id = 1, i_event_id = 1\<rparr>, \<lparr>i_user_id = 1, i_event_id = 3\<rparr>],
      trends = [\<lparr>t_region_id = 0, t_event_id = 1, rank = 1, attendance_count = 5,
                 comments_count = 0, likes_count = 0, updated_at = 1\<rparr>,
                \<lparr>t_region_id = 0, t_event_id = 2, rank = 2, attendance_count = 2,
                 comments_count = 2, likes_count = 0, updated_at = 1\<rparr>]\<rparr>"

text \<open>
  The live counts of an event: the numbers of attendance, comment and like rows that
  reference it.
\<close>

definition live_counts :: "db \<Rightarrow> int \<Rightarrow> int \<times> int \<times> int" where
  "live_counts d eid =
     (int (length (filter (\<lambda>r. i_event_id r = eid) (event_attending d))),
      int (length (filter (\<lambda>r. i_event_id r = eid) (event_comments d))),
      int (length (filter (\<lambda>r. i_event_id r = eid) (event_likes d))))"

text \<open>The ids of the events of a region, and the rows stored for a region.\<close>

definition region_event_ids :: "db \<Rightarrow> int \<Rightarrow> int set" where
  "region_event_ids d rid = e_id ` {e \<in> set (events d). e_region_id e = rid}"

definition region_trends :: "db \<Rightarrow> int \<Rightarrow> trend list" where
  "region_trends d rid = filter (\<lambda>t. t_region_id t = rid) (trends d)"

text \<open>Every field of a stored row except \<^verbatim>\<open>updated_at\<close>.\<close>

definition stored_fields :: "trend \<Rightarrow> int \<times> int \<times> int \<times> int \<times> int \<times> int" where
  "stored_fields t =
     (t_region_id t, t_event_id t, rank t, attendance_count t, comments_count t, likes_count t)"

text \<open>
  Variants of the database above: in the first, event 3 has no interaction; in the second,
  region 0 has no event left while two trend rows are still stored for it.
\<close>

definition db2 :: db where
  "db2 = db1\<lparr>event_likes := [\<lparr>i_user_id = 1, i_event_id = 1\<rparr>]\<rparr>"

definition db3 :: db where
  "db3 = db1\<lparr>events := [\<lparr>e_id = 4, e_region_id = 1, e_title = ''d''\<rparr>]\<rparr>"

definition body0 :: trend_rebuild_body where
  "body0 = \<lparr>rb_region = RStr ''san diego''\<rparr>"

text \<open>The key of a stored row, and the unique constraint \<^verbatim>\<open>uq_trend_region_event\<close>.\<close>

definition trend_pair :: "trend \<Rightarrow> int \<times> int" where
  "trend_pair t = (t_region_id t, t_event_id t)"

definition trends_unique :: "db \<Rightarrow> bool" where
  "trends_unique d = distinct (map trend_pair (trends d))"

text \<open>What the upsert assigns to a row that exists, and the row it adds otherwise.\<close>

definition refreshed :: "int \<times> int \<times> int \<Rightarrow> datetime \<Rightarrow> trend \<Rightarrow> trend" where
  "refreshed c now t =
     t\<lparr>attendance_count := fst c, comments_count := fst (snd c), likes_count := snd (snd c),
       updated_at := now\<rparr>"

definition appended :: "db \<Rightarrow> int \<Rightarrow> int \<Rightarrow> int \<times> int \<times> int \<Rightarrow> datetime \<Rightarrow> trend" where
  "appended d rid eid c sn =
     \<lparr>t_region_id = rid, t_event_id = eid,
      rank = (if region_trends d rid = [] then 1
              else Max (set (map rank (region_trends d rid))) + 1),
      attendance_count = fst c, comments_count = fst (snd c), likes_count = snd (snd c),
      updated_at = sn\<rparr>"

text \<open>Two request bodies for the update: event 1 has a row in \<open>db1\<close>, event 3 has none.\<close>

definition upd1 :: trend_update_body where
  "upd1 = \<lparr>ub_region = RInt 0, ub_event_id = 1, ub_rank = None\<rparr>"


text \<open>The loaded rows with their new ranks, in the order of the sort.\<close>

definition renumbered :: "(nat \<times> trend) list \<Rightarrow> trend list" where
  "renumbered rows = map (\<lambda>(k, (i, t)). t\<lparr>rank := int k\<rparr>) (enumerate 1 rows)"

text \<open>Every field of a stored row except the rank.\<close>

definition unranked :: "trend \<Rightarrow> int \<times> int \<times> (int \<times> int \<times> int) \<times> datetime" where
  "unranked t = (t_region_id t, t_event_id t, counts_of t, updated_at t)"


section \<open>Properties\<close>

subsection \<open>The ranking\<close>

lemma order_key_le_iff:
  "order_key e1 \<le> order_key e2 \<longleftrightarrow> lex_ge (snd e1) (snd e2)"
  by (cases e1; cases e2) (auto simp: less_eq_prod_def)


lemma entry_of_snd [simp]: "snd (entry_of t) = counts_of t"
  by (simp add: entry_of_def counts_of_def)

lemma entry_of_fst [simp]: "fst (entry_of t) = t_event_id t"
  by (simp add: entry_of_def)

lemma length_ranked_rows [simp]: "length (ranked_rows r n es) = length es"
  by (simp add: ranked_rows_def)



lemma map_entry_of_ranked_rows [simp]: "map entry_of (ranked_rows r n es) = es"
  unfolding ranked_rows_def
  by (induction es arbitrary: r rule: rev_induct) (auto simp: entry_of_def enumerate_append_eq)

lemma map_region_ranked_rows [simp]:
  "filter (\<lambda>t. t_region_id t = r) (ranked_rows r n es) = ranked_rows r n es"
  by (simp add: ranked_rows_def split_def)

lemma ranked_rows_region: "t \<in> set (ranked_rows r n es) \<Longrightarrow> t_region_id t = r"
  by (auto simp: ranked_rows_def)


lemma length_sorted_events [simp]: "length (sorted_events cs) = length cs"
  by (simp add: sorted_events_def)






subsection \<open>Region resolution\<close>

lemma of_char_lower_char:
  "of_char (lower_char c) = (let n = (of_char c :: nat) in
      if (65 \<le> n \<and> n \<le> 90) \<or> (192 \<le> n \<and> n \<le> 222 \<and> n \<noteq> 215) then n + 32 else n)"
proof -
  have "(of_char c :: nat) < 256" by simp
  then show ?thesis
    by (auto simp: lower_char_def Let_def)
qed

lemma lower_char_zero: "lower_char c = CHR ''0'' \<longleftrightarrow> c = CHR ''0''"
proof
  assume "lower_char c = CHR ''0''"
  then have "(of_char (lower_char c) :: nat) = 48" by simp
  then have "(of_char c :: nat) = 48"
    by (simp add: of_char_lower_char Let_def split: if_splits)
  then have "(of_char c :: nat) = of_char CHR ''0''" by simp
  then show "c = CHR ''0''" by (simp only: of_char_eq_iff)
next
  assume "c = CHR ''0''" then show "lower_char c = CHR ''0''"
    by (simp add: lower_char_def)
qed

lemma str_lower_zero: "str_lower s = ''0'' \<longleftrightarrow> s = ''0''"
  by (cases s) (auto simp: str_lower_def lower_char_zero)

lemma parse_region_param_iff:
  "parse_region_param v = Inr 0 \<longleftrightarrow> accepted_region v"
  by (cases v) (auto simp: accepted_region_def normalize_region_def REGION_SAN_DIEGO_ID_def
        Let_def str_lower_zero)

lemma parse_region_param_cases:
  "parse_region_param v = (if accepted_region v then Inr 0 else Inl ValueError)"
  by (cases v) (auto simp: accepted_region_def normalize_region_def REGION_SAN_DIEGO_ID_def
        Let_def str_lower_zero)

lemma scalar_one_or_none_error:
  "scalar_one_or_none rs = Inl e \<Longrightarrow> e = MultipleResultsFound"
  by (auto simp: scalar_one_or_none_def split: list.splits)

lemma upsert_trend_error:
  "upsert_trend d r eid c now sn = Inl e \<Longrightarrow> e = MultipleResultsFound"
  by (cases c)
     (auto simp: upsert_trend_def Let_def dest: scalar_one_or_none_error
           split: sum.splits option.splits prod.splits)

lemma get_trends_400:
  "(get_trends d v skip limit = Inl (HTTPException 400)) = (\<not> accepted_region v)"
  by (simp add: get_trends_def parse_region_param_cases Let_def)

lemma rebuild_trends_400:
  "(snd (rebuild_trends d \<lparr>rb_region = v\<rparr> now) = Inl (HTTPException 400))
     = (\<not> accepted_region v)"
  by (simp add: rebuild_trends_def parse_region_param_cases Let_def)

lemma update_trends_400:
  "(snd (update_trends d \<lparr>ub_region = v, ub_event_id = eid, ub_rank = rk\<rparr> now sn)
      = Inl (HTTPException 400)) = (\<not> accepted_region v)"
  by (auto simp: update_trends_def parse_region_param_cases Let_def
           dest: upsert_trend_error split: option.splits sum.splits)

text \<open>
  Claim C10, as amended. Resolution yields the region 0 exactly for the integer 0, for a
  string whose trimmed, lower-cased form with hyphens as spaces is \<^verbatim>\<open>san diego\<close>, and for
  a string that is \<^verbatim>\<open>0\<close> once trimmed; every other input raises \<^verbatim>\<open>ValueError\<close>. Each
  of the three handlers answers with status 400 exactly for the inputs that do not resolve.
\<close>

theorem region_resolution:
  "parse_region_param v = (if accepted_region v then Inr 0 else Inl ValueError)
   \<and> (get_trends d v skip limit = Inl (HTTPException 400)) = (\<not> accepted_region v)
   \<and> (snd (rebuild_trends d \<lparr>rb_region = v\<rparr> now) = Inl (HTTPException 400))
       = (\<not> accepted_region v)
   \<and> (snd (update_trends d \<lparr>ub_region = v, ub_event_id = eid, ub_rank = rk\<rparr> now sn)
        = Inl (HTTPException 400)) = (\<not> accepted_region v)"
  by (simp only: parse_region_param_cases get_trends_400 rebuild_trends_400
        update_trends_400 simp_thms)

theorem region_resolution_witness:
  "accepted_region (RStr ''  San-Diego '')
   \<and> parse_region_param (RStr ''  San-Diego '') = Inr 0
   \<and> \<not> accepted_region (RStr ''la'')
   \<and> parse_region_param (RStr ''la'') = Inl ValueError
   \<and> get_trends \<lparr>events = [], event_attending = [], event_comments = [], event_likes = [],
          trends = []\<rparr> (RInt 1) 0 50 = Inl (HTTPException 400)"
proof -
  have a: "accepted_region (RStr ''  San-Diego '')" by code_simp
  have b: "\<not> accepted_region (RStr ''la'')" by code_simp
  have c: "\<not> accepted_region (RInt 1)" by code_simp
  show ?thesis
    using a b c region_resolution[of "RStr ''  San-Diego ''"] region_resolution[of "RStr ''la''"]
      region_resolution[of "RInt 1" "\<lparr>events = [], event_attending = [], event_comments = [],
         event_likes = [], trends = []\<rparr>" 0 50]
    by simp
qed


text \<open>
  The claim as stated fails: the string of a space and \<^verbatim>\<open>0\<close> resolves, and it is none of
  the inputs the claim lists.
\<close>

theorem region_resolution_counterexample:
  "parse_region_param (RStr '' 0'') = Inr 0 \<and> \<not> claimed_region (RStr '' 0'')"
  by code_simp

subsection \<open>Failures of the update\<close>

lemma db_get_event_None: "db_get_event d eid = None \<longleftrightarrow> eid \<notin> e_id ` set (events d)"
  by (auto simp: db_get_event_def find_None_iff)

text \<open>
  Claim C7. When the region resolves, the update answers with status 404 exactly when no
  event has the given id or the event found belongs to another region. Whenever the update
  raises, whatever the exception, the database is as it was before the call.
\<close>

theorem update_trends_failure:
  "(parse_region_param (ub_region p) = Inr rid \<longrightarrow>
      (snd (update_trends d p now sn) = Inl (HTTPException 404)) =
        (ub_event_id p \<notin> e_id ` set (events d) \<or>
         (\<exists>ev. db_get_event d (ub_event_id p) = Some ev \<and> e_region_id ev \<noteq> rid)))
   \<and> (\<forall>e. snd (update_trends d p now sn) = Inl e \<longrightarrow> fst (update_trends d p now sn) = d)"
proof (intro conjI impI allI)
  assume r: "parse_region_param (ub_region p) = Inr rid"
  show "(snd (update_trends d p now sn) = Inl (HTTPException 404)) =
        (ub_event_id p \<notin> e_id ` set (events d) \<or>
         (\<exists>ev. db_get_event d (ub_event_id p) = Some ev \<and> e_region_id ev \<noteq> rid))"
  proof (cases "db_get_event d (ub_event_id p)")
    case None
    then show ?thesis
      using r by (simp add: update_trends_def flip: db_get_event_None)
  next
    case (Some ev)
    then have "ub_event_id p \<in> e_id ` set (events d)"
      using db_get_event_None[of d "ub_event_id p"] by simp
    then show ?thesis
      using r Some
      by (auto simp: update_trends_def Let_def dest: upsert_trend_error split: sum.splits)
  qed
next
  fix e assume "snd (update_trends d p now sn) = Inl e"
  then show "fst (update_trends d p now sn) = d"
    by (auto simp: update_trends_def Let_def split: sum.splits option.splits if_splits)
qed


theorem update_trends_failure_witness:
  "parse_region_param (RInt 0) = Inr 0
   \<and> db_get_event db1 4 = Some \<lparr>e_id = 4, e_region_id = 1, e_title = ''d''\<rparr>
   \<and> update_trends db1 \<lparr>ub_region = RInt 0, ub_event_id = 4, ub_rank = None\<rparr> 7 8
       = (db1, Inl (HTTPException 404))"
proof -
  let ?p = "\<lparr>ub_region = RInt 0, ub_event_id = 4, ub_rank = None\<rparr>"
  have a: "parse_region_param (ub_region ?p) = Inr 0" by code_simp
  have a': "parse_region_param (RInt 0) = Inr 0" by code_simp
  have b: "db_get_event db1 (ub_event_id ?p) = Some \<lparr>e_id = 4, e_region_id = 1, e_title = ''d''\<rparr>"
    by code_simp
  have c: "e_region_id \<lparr>e_id = 4, e_region_id = 1, e_title = ''d''\<rparr> \<noteq> 0" by simp
  from update_trends_failure[of ?p 0 db1 7 8] a b c
  have s: "snd (update_trends db1 ?p 7 8) = Inl (HTTPException 404)" by blast
  with update_trends_failure[of ?p 0 db1 7 8]
  have f: "fst (update_trends db1 ?p 7 8) = db1" by blast
  from s f have "update_trends db1 ?p 7 8 = (db1, Inl (HTTPException 404))"
    by (metis prod.collapse)
  with a' b show ?thesis by simp
qed

subsection \<open>The rank of the request body\<close>

text \<open>
  Claim C8. The update does not depend on the \<^verbatim>\<open>rank\<close> of the request body: two bodies that
  differ only there lead to the same database and the same response.
\<close>

theorem update_trends_rank_ignored:
  "update_trends d (p\<lparr>ub_rank := r1\<rparr>) now sn = update_trends d (p\<lparr>ub_rank := r2\<rparr>) now sn"
  by (simp add: update_trends_def cong: sum.case_cong option.case_cong if_cong)

theorem update_trends_rank_ignored_witness:
  "update_trends db1 \<lparr>ub_region = RInt 0, ub_event_id = 3, ub_rank = Some 1\<rparr> 7 8
   = update_trends db1 \<lparr>ub_region = RInt 0, ub_event_id = 3, ub_rank = None\<rparr> 7 8"
  using update_trends_rank_ignored
    [where d = db1 and p = "\<lparr>ub_region = RInt 0, ub_event_id = 3, ub_rank = None\<rparr>"
       and ?r1.0 = "Some 1" and ?r2.0 = None and now = 7 and sn = 8]
  by simp

subsection \<open>Dictionaries and counts\<close>

lemma fold_update_map_of:
  "map_of (fold (\<lambda>(k, v) d. AList.update k v d) xs d) = map_of d ++ map_of (rev xs)"
  by (induction xs arbitrary: d) (auto simp: update_conv')

lemma map_of_dict_of: "map_of (dict_of xs) = map_of (rev xs)"
  by (simp add: dict_of_def fold_update_map_of)

lemma fold_update_keys:
  "fst ` set (fold (\<lambda>(k, v) d. AList.update k v d) xs d) = fst ` set xs \<union> fst ` set d"
proof (induction xs arbitrary: d)
  case Nil
  show ?case by simp
next
  case (Cons x xs)
  obtain k v where x: "x = (k, v)" by (cases x)
  have "fst ` set (fold (\<lambda>(k, v) d. AList.update k v d) (x # xs) d)
        = fst ` set xs \<union> fst ` set (AList.update k v d)"
    using Cons.IH[of "AList.update k v d"] by (simp add: x)
  also have "\<dots> = fst ` set xs \<union> ({k} \<union> fst ` set d)"
    by (simp only: dom_update)
  finally show ?case by (auto simp: x)
qed

lemma keys_dict_of: "fst ` set (dict_of xs) = fst ` set xs"
  by (simp add: dict_of_def fold_update_keys)

lemma fold_update_distinct:
  "distinct (map fst d) \<Longrightarrow> distinct (map fst (fold (\<lambda>(k, v) d. AList.update k v d) xs d))"
  by (induction xs arbitrary: d) (auto simp: distinct_update)

lemma distinct_dict_of: "distinct (map fst (dict_of xs))"
  by (simp add: dict_of_def fold_update_distinct)

lemma dict_of_Nil_iff: "dict_of xs = [] \<longleftrightarrow> xs = []"
proof -
  have "fst ` set (dict_of xs) = {} \<longleftrightarrow> fst ` set xs = {}" by (simp only: keys_dict_of)
  then show ?thesis by simp
qed

lemma map_of_graph: "map_of (rev (map (\<lambda>k. (k, f k)) ks)) k = (if k \<in> set ks then Some (f k) else None)"
  by (simp add: rev_map map_of_map_restrict restrict_map_def)

lemma dict_get_graph:
  "dict_get (dict_of (map (\<lambda>k. (k, f k)) ks)) k dflt = (if k \<in> set ks then f k else dflt)"
  by (simp add: dict_get_def map_of_dict_of map_of_graph)

lemma dict_get_count_by_event:
  assumes "eid \<in> set ids"
  shows "dict_get (dict_of (count_by_event tbl ids)) eid 0
         = int (length (filter (\<lambda>r. i_event_id r = eid) tbl))"
proof -
  let ?sel = "filter (\<lambda>r. i_event_id r \<in> set ids) tbl"
  have sel: "filter (\<lambda>r. i_event_id r = eid) ?sel = filter (\<lambda>r. i_event_id r = eid) tbl"
    using assms by (induction tbl) auto
  have "dict_get (dict_of (count_by_event tbl ids)) eid 0
        = (if eid \<in> set (remdups (map i_event_id ?sel))
           then int (length (filter (\<lambda>r. i_event_id r = eid) ?sel)) else 0)"
    unfolding count_by_event_def Let_def by (rule dict_get_graph)
  also have "\<dots> = int (length (filter (\<lambda>r. i_event_id r = eid) tbl))"
  proof (cases "eid \<in> set (remdups (map i_event_id ?sel))")
    case True
    then show ?thesis by (simp only: sel if_True)
  next
    case False
    then have "filter (\<lambda>r. i_event_id r = eid) ?sel = []"
      by (auto simp: filter_empty_conv)
    with False sel show ?thesis by simp
  qed
  finally show ?thesis .
qed

lemma counts_trends_update [simp]:
  "get_event_interaction_counts (d\<lparr>trends := ts\<rparr>) rid = get_event_interaction_counts d rid"
  by (simp add: get_event_interaction_counts_def Let_def)

lemma counts_map_of:
  "map_of (get_event_interaction_counts d rid) eid
   = (if eid \<in> region_event_ids d rid then Some (live_counts d eid) else None)"
proof -
  let ?ids = "map e_id (filter (\<lambda>e. e_region_id e = rid) (events d))"
  have ids: "set ?ids = region_event_ids d rid"
    by (auto simp: region_event_ids_def)
  show ?thesis
  proof (cases "?ids = []")
    case True
    with ids have "region_event_ids d rid = {}" by (metis set_empty)
    with True show ?thesis by (simp add: get_event_interaction_counts_def)
  next
    case False
    have "map_of (get_event_interaction_counts d rid) eid
          = (if eid \<in> set ?ids then
               Some (dict_get (dict_of (count_by_event (event_attending d) ?ids)) eid 0,
                     dict_get (dict_of (count_by_event (event_comments d) ?ids)) eid 0,
                     dict_get (dict_of (count_by_event (event_likes d) ?ids)) eid 0)
             else None)"
      using False
      by (simp only: get_event_interaction_counts_def Let_def if_False map_of_dict_of map_of_graph)
    also have "\<dots> = (if eid \<in> set ?ids then Some (live_counts d eid) else None)"
      by (simp add: dict_get_count_by_event live_counts_def)
    finally show ?thesis by (simp only: ids)
  qed
qed

lemma counts_keys:
  "fst ` set (get_event_interaction_counts d rid) = region_event_ids d rid"
  by (auto simp: get_event_interaction_counts_def Let_def keys_dict_of region_event_ids_def
      image_image filter_empty_conv)

lemma counts_distinct: "distinct (map fst (get_event_interaction_counts d rid))"
  by (simp add: get_event_interaction_counts_def Let_def distinct_dict_of)

lemma counts_values:
  assumes "(eid, c) \<in> set (get_event_interaction_counts d rid)"
  shows "c = live_counts d eid"
proof -
  from assms have "map_of (get_event_interaction_counts d rid) eid = Some c"
    by (simp add: counts_distinct)
  then show ?thesis by (simp add: counts_map_of split: if_splits)
qed

lemma counts_Nil_iff:
  "get_event_interaction_counts d rid = [] \<longleftrightarrow> region_event_ids d rid = {}"
  using counts_keys[of d rid] by auto

subsection \<open>The rebuild\<close>

lemma sorted_events_eq: "sorted_events cs = sort_key order_key cs"
proof -
  have "(\<lambda>(eid, (att, com, lik)). (eid, att, com, lik)) = (\<lambda>x :: entry. x)" by auto
  then show ?thesis by (simp add: sorted_events_def)
qed

lemma set_sorted_events [simp]: "set (sorted_events cs) = set cs"
  by (simp add: sorted_events_eq)

lemma ranked_rows_Nil [simp]: "ranked_rows r n [] = []"
  by (simp add: ranked_rows_def)

lemma sorted_events_Nil [simp]: "sorted_events [] = []"
  by (simp add: sorted_events_eq)

lemma rebuild_trends_ok:
  assumes "parse_region_param (rb_region p) = Inr rid"
  shows "rebuild_trends d p now =
     (d\<lparr>trends := filter (\<lambda>t. t_region_id t \<noteq> rid) (trends d)
                    @ ranked_rows rid now (sorted_events (get_event_interaction_counts d rid))\<rparr>,
      Inr \<lparr>success = True, count = int (length (get_event_interaction_counts d rid))\<rparr>)"
  using assms by (simp add: rebuild_trends_def Let_def delete_trends_def)

lemma filter_other_ranked_rows [simp]:
  "filter (\<lambda>t. t_region_id t \<noteq> r) (ranked_rows r n es) = []"
  by (simp add: ranked_rows_def split_def)

lemma region_trends_rebuild:
  assumes "parse_region_param (rb_region p) = Inr rid"
  shows "region_trends (fst (rebuild_trends d p now)) rid
         = ranked_rows rid now (sorted_events (get_event_interaction_counts d rid))"
  by (simp add: rebuild_trends_ok[OF assms] region_trends_def)

lemma distinct_fst_sort_key:
  "distinct (map fst (sort_key k xs)) = distinct (map fst xs)"
  by (rule mset_eq_imp_distinct_iff) simp

lemma map_event_id_ranked_rows: "map t_event_id (ranked_rows r n es) = map fst es"
proof -
  have "map t_event_id ts = map fst (map entry_of ts)" for ts
    by (induction ts) simp_all
  then have "map t_event_id (ranked_rows r n es) = map fst (map entry_of (ranked_rows r n es))" .
  then show ?thesis by (simp only: map_entry_of_ranked_rows)
qed

lemma ranked_rows_entry:
  assumes "t \<in> set (ranked_rows r n es)"
  shows "(t_event_id t, counts_of t) \<in> set es"
proof -
  from assms have "entry_of t \<in> set (map entry_of (ranked_rows r n es))"
    by (simp only: set_map) (rule imageI)
  then show ?thesis by (simp add: entry_of_def counts_of_def)
qed

text \<open>
  Claim C3. When the region resolves, the rebuild succeeds; afterwards the events with a row
  in the trend list of the region are exactly the events of the region, each with one row,
  and each row carries the live counts of its event, which are (0, 0, 0) for an event without
  interactions. If the region has no events, its trend list is empty afterwards and the
  response carries the count 0.
\<close>

theorem rebuild_complete:
  assumes "parse_region_param (rb_region p) = Inr rid"
  shows "snd (rebuild_trends d p now)
           = Inr \<lparr>success = True,
                  count = int (length (region_trends (fst (rebuild_trends d p now)) rid))\<rparr>
       \<and> t_event_id ` set (region_trends (fst (rebuild_trends d p now)) rid)
           = region_event_ids d rid
       \<and> distinct (map t_event_id (region_trends (fst (rebuild_trends d p now)) rid))
       \<and> (\<forall>t \<in> set (region_trends (fst (rebuild_trends d p now)) rid).
             counts_of t = live_counts d (t_event_id t))
       \<and> (region_event_ids d rid = {} \<longrightarrow>
             region_trends (fst (rebuild_trends d p now)) rid = []
             \<and> snd (rebuild_trends d p now) = Inr \<lparr>success = True, count = 0\<rparr>)"
proof -
  let ?cs = "get_event_interaction_counts d rid"
  let ?R = "region_trends (fst (rebuild_trends d p now)) rid"
  have R: "?R = ranked_rows rid now (sorted_events ?cs)"
    by (rule region_trends_rebuild[OF assms])
  have ids: "map t_event_id ?R = map fst (sort_key order_key ?cs)"
    by (simp only: R map_event_id_ranked_rows sorted_events_eq)
  have len: "length ?R = length ?cs"
    by (simp only: R length_ranked_rows length_sorted_events)
  have 1: "snd (rebuild_trends d p now) = Inr \<lparr>success = True, count = int (length ?R)\<rparr>"
    unfolding len by (simp add: rebuild_trends_ok[OF assms])
  have "set (map t_event_id ?R) = fst ` set ?cs"
    by (simp only: ids set_map set_sort)
  then have 2: "t_event_id ` set ?R = region_event_ids d rid"
    by (simp add: counts_keys)
  have 3: "distinct (map t_event_id ?R)"
    by (simp only: ids distinct_fst_sort_key counts_distinct)
  have 4: "\<forall>t \<in> set ?R. counts_of t = live_counts d (t_event_id t)"
  proof
    fix t assume "t \<in> set ?R"
    then have "(t_event_id t, counts_of t) \<in> set (sorted_events ?cs)"
      unfolding R by (rule ranked_rows_entry)
    then show "counts_of t = live_counts d (t_event_id t)"
      by (simp add: counts_values)
  qed
  have 5: "region_event_ids d rid = {} \<longrightarrow>
             ?R = [] \<and> snd (rebuild_trends d p now) = Inr \<lparr>success = True, count = 0\<rparr>"
  proof
    assume "region_event_ids d rid = {}"
    then have "?cs = []" by (simp add: counts_Nil_iff)
    then have "?R = []" "length ?cs = 0" unfolding R by simp_all
    then show "?R = [] \<and> snd (rebuild_trends d p now) = Inr \<lparr>success = True, count = 0\<rparr>"
      by (simp add: rebuild_trends_ok[OF assms])
  qed
  from 1 2 3 4 5 show ?thesis by blast
qed

theorem rebuild_complete_witness:
  "parse_region_param (rb_region body0) = Inr 0
   \<and> map t_event_id (region_trends (fst (rebuild_trends db2 body0 9)) 0) = [2, 1, 3]
   \<and> distinct (map t_event_id (region_trends (fst (rebuild_trends db2 body0 9)) 0))
   \<and> live_counts db2 3 = (0, 0, 0)
   \<and> counts_of (region_trends (fst (rebuild_trends db2 body0 9)) 0 ! 2) = live_counts db2 3
   \<and> region_event_ids db3 0 = {}
   \<and> region_trends db3 0 \<noteq> []
   \<and> region_trends (fst (rebuild_trends db3 body0 9)) 0 = []
   \<and> snd (rebuild_trends db3 body0 9) = Inr \<lparr>success = True, count = 0\<rparr>"
proof -
  let ?R = "region_trends (fst (rebuild_trends db2 body0 9)) 0"
  have a: "parse_region_param (rb_region body0) = Inr 0" by code_simp
  have b: "map t_event_id ?R = [2, 1, 3]" by code_simp
  have c: "live_counts db2 3 = (0, 0, 0)" by code_simp
  have m: "?R ! 2 \<in> set ?R" by code_simp
  have i: "t_event_id (?R ! 2) = 3" by code_simp
  have e: "region_event_ids db3 0 = {}"
    by (simp add: region_event_ids_def db3_def)
  have f: "region_trends db3 0 \<noteq> []" by code_simp
  from rebuild_complete[OF a, of db2 9] m i
  have g: "distinct (map t_event_id ?R)" "counts_of (?R ! 2) = live_counts db2 3"
    by auto
  from rebuild_complete[OF a, of db3 9] e
  have h: "region_trends (fst (rebuild_trends db3 body0 9)) 0 = []"
    "snd (rebuild_trends db3 body0 9) = Inr \<lparr>success = True, count = 0\<rparr>"
    by blast+
  from a b c e f g h show ?thesis by blast
qed

text \<open>
  Claim C6. A second rebuild, run on the database that the first one leaves, gives the same
  response and the same stored rows in every field but \<^verbatim>\<open>updated_at\<close>; the other tables
  are untouched.
\<close>

theorem rebuild_idempotent:
  "snd (rebuild_trends (fst (rebuild_trends d p n1)) p n2) = snd (rebuild_trends d p n1)
   \<and> map stored_fields (trends (fst (rebuild_trends (fst (rebuild_trends d p n1)) p n2)))
       = map stored_fields (trends (fst (rebuild_trends d p n1)))
   \<and> (fst (rebuild_trends (fst (rebuild_trends d p n1)) p n2))
       \<lparr>trends := trends (fst (rebuild_trends d p n1))\<rparr> = fst (rebuild_trends d p n1)"
proof (cases "parse_region_param (rb_region p)")
  case (Inl e)
  then show ?thesis by (simp add: rebuild_trends_def)
next
  case (Inr rid)
  have sf: "map stored_fields (ranked_rows rid n2 es) = map stored_fields (ranked_rows rid n1 es)"
    for es by (simp add: ranked_rows_def stored_fields_def split_def)
  show ?thesis
    by (simp add: rebuild_trends_ok[OF Inr] sf)
qed

theorem rebuild_idempotent_witness:
  "snd (rebuild_trends db1 body0 5) = Inr \<lparr>success = True, count = 3\<rparr>
   \<and> snd (rebuild_trends (fst (rebuild_trends db1 body0 5)) body0 9)
       = Inr \<lparr>success = True, count = 3\<rparr>
   \<and> map stored_fields (trends (fst (rebuild_trends db1 body0 5)))
       = [(0, 2, 1, 2, 2, 0), (0, 1, 2, 2, 1, 1), (0, 3, 3, 0, 0, 1)]
   \<and> map stored_fields (trends (fst (rebuild_trends (fst (rebuild_trends db1 body0 5)) body0 9)))
       = [(0, 2, 1, 2, 2, 0), (0, 1, 2, 2, 1, 1), (0, 3, 3, 0, 0, 1)]"
proof -
  have a: "snd (rebuild_trends db1 body0 5) = Inr \<lparr>success = True, count = 3\<rparr>"
    by code_simp
  have b: "map stored_fields (trends (fst (rebuild_trends db1 body0 5)))
       = [(0, 2, 1, 2, 2, 0), (0, 1, 2, 2, 1, 1), (0, 3, 3, 0, 0, 1)]"
    by code_simp
  from rebuild_idempotent[of db1 body0 5 9] a b show ?thesis by simp
qed

subsection \<open>The upsert\<close>

lemma max_rank_eq:
  "max_rank d rid = (if region_trends d rid = [] then 0
                     else Max (set (map rank (region_trends d rid))))"
proof (cases "map rank (region_trends d rid)")
  case Nil
  then show ?thesis by (simp add: max_rank_def region_trends_def)
next
  case (Cons r rs)
  then have "max_rank d rid = fold max rs r"
    by (simp add: max_rank_def region_trends_def)
  also have "\<dots> = Max (set (r # rs))" by (simp only: Max.set_eq_fold)
  finally show ?thesis using Cons by auto
qed

lemma matching_rows:
  "map snd (filter (\<lambda>(i, t). P t) (enumerate n ts)) = filter P ts"
proof -
  have "filter P (map snd (enumerate n ts)) = map snd (filter (P \<circ> snd) (enumerate n ts))"
    by (rule filter_map)
  then show ?thesis by (simp add: comp_def split_def)
qed

lemma matching_single:
  assumes "filter (\<lambda>(i, t). P t) (enumerate 0 ts) = [(i, t)]"
  shows "i < length ts" "ts ! i = t" "P t" "\<And>j. j < length ts \<Longrightarrow> P (ts ! j) \<Longrightarrow> j = i"
proof -
  have m: "(i, t) \<in> set (filter (\<lambda>(i, t). P t) (enumerate 0 ts))"
    by (simp add: assms)
  then show "i < length ts" "ts ! i = t" "P t"
    by (auto simp: in_set_enumerate_eq)
  fix j assume "j < length ts" "P (ts ! j)"
  then have "(j, ts ! j) \<in> set (filter (\<lambda>(i, t). P t) (enumerate 0 ts))"
    by (auto simp: in_set_enumerate_eq)
  then show "j = i" by (simp add: assms)
qed

lemma update_single_eq_map:
  assumes "filter (\<lambda>(i, t). P t) (enumerate 0 ts) = [(i, t)]"
  shows "ts[i := f t] = map (\<lambda>x. if P x then f x else x) ts"
proof (rule nth_equalityI)
  show "length (ts[i := f t]) = length (map (\<lambda>x. if P x then f x else x) ts)" by simp
next
  fix j assume "j < length (ts[i := f t])"
  then have j: "j < length ts" by simp
  show "ts[i := f t] ! j = map (\<lambda>x. if P x then f x else x) ts ! j"
  proof (cases "j = i")
    case True
    with j matching_single(2,3)[OF assms] show ?thesis by simp
  next
    case False
    with j matching_single(4)[OF assms] have "\<not> P (ts ! j)" by blast
    with False j show ?thesis by simp
  qed
qed

lemma distinct_filter_le1:
  "distinct (map f xs) \<Longrightarrow> length (filter (\<lambda>x. f x = k) xs) \<le> Suc 0"
  by (induction xs) (auto simp: filter_empty_conv image_iff)

lemma upsert_trend_eq:
  "upsert_trend d rid eid c now sn =
     (case filter (\<lambda>t. trend_pair t = (rid, eid)) (trends d) of
        [] \<Rightarrow> Inr (d\<lparr>trends := trends d @ [appended d rid eid c sn]\<rparr>)
      | [t] \<Rightarrow> Inr (d\<lparr>trends := map (\<lambda>x. if trend_pair x = (rid, eid) then refreshed c now x
                                          else x) (trends d)\<rparr>)
      | _ \<Rightarrow> Inl MultipleResultsFound)"
proof -
  let ?P = "\<lambda>t. trend_pair t = (rid, eid)"
  let ?xs = "filter (\<lambda>(i, t). ?P t) (enumerate 0 (trends d))"
  have P: "(\<lambda>(i, t). t_region_id t = rid \<and> t_event_id t = eid) = (\<lambda>(i, t). ?P t)"
    by (simp add: trend_pair_def)
  have ms: "map snd ?xs = filter ?P (trends d)" by (rule matching_rows)
  obtain a cm l where c: "c = (a, cm, l)" by (cases c)
  show ?thesis
  proof (cases ?xs)
    case Nil
    with ms have "filter ?P (trends d) = []" by simp
    with Nil show ?thesis
      by (simp add: upsert_trend_def P c scalar_one_or_none_def appended_def max_rank_eq)
  next
    case (Cons x xs)
    obtain i t where x: "x = (i, t)" by (cases x)
    show ?thesis
    proof (cases xs)
      case Nil
      with Cons x have one: "?xs = [(i, t)]" by simp
      with ms have f: "filter ?P (trends d) = [t]" by simp
      have "(trends d)[i := refreshed c now t]
            = map (\<lambda>x. if ?P x then refreshed c now x else x) (trends d)"
        by (rule update_single_eq_map[OF one])
      moreover have "t\<lparr>attendance_count := a, comments_count := cm, likes_count := l,
                        updated_at := now\<rparr> = refreshed c now t"
        by (simp add: refreshed_def c)
      ultimately show ?thesis
        by (simp add: upsert_trend_def P c scalar_one_or_none_def one f)
    next
      case (Cons y ys)
      with \<open>?xs = x # xs\<close> have two: "?xs = x # y # ys" by simp
      with ms have "filter ?P (trends d) = snd x # snd y # map snd ys" by simp
      with two show ?thesis
        by (simp add: upsert_trend_def P c scalar_one_or_none_def)
    qed
  qed
qed

text \<open>
  Claim C4. Under the unique constraint of the trend table the upsert succeeds. If a row for
  (region, event) exists, that row is assigned the three counts and the time in place, and
  the table keeps its length; otherwise one row is added at the end, with the counts, the
  default time, and the largest rank of the region plus 1, which is 1 when the region has no
  row. Afterwards the unique constraint holds again and the pair has exactly one row.
\<close>

theorem upsert_trend_cases:
  assumes "trends_unique d"
  shows "\<exists>d'. upsert_trend d rid eid c now sn = Inr d'
           \<and> (if (rid, eid) \<in> set (map trend_pair (trends d))
               then trends d' = map (\<lambda>t. if trend_pair t = (rid, eid) then refreshed c now t
                                           else t) (trends d)
               else trends d' = trends d @ [appended d rid eid c sn])
           \<and> length (filter (\<lambda>t. trend_pair t = (rid, eid)) (trends d')) = 1
           \<and> trends_unique d'"
proof -
  let ?P = "\<lambda>t. trend_pair t = (rid, eid)"
  have le: "length (filter ?P (trends d)) \<le> Suc 0"
    using assms unfolding trends_unique_def by (rule distinct_filter_le1)
  have pair: "trend_pair (refreshed c now t) = trend_pair t" for t
    by (simp add: refreshed_def trend_pair_def)
  show ?thesis
  proof (cases "filter ?P (trends d)")
    case Nil
    then have no: "(rid, eid) \<notin> set (map trend_pair (trends d))"
      by (auto simp: filter_empty_conv)
    have new: "trend_pair (appended d rid eid c sn) = (rid, eid)"
      by (simp add: appended_def trend_pair_def)
    from Nil no new assms show ?thesis
      by (simp add: upsert_trend_eq trends_unique_def)
  next
    case (Cons t ts)
    with le have one: "filter ?P (trends d) = [t]" by simp
    then have "t \<in> set (filter ?P (trends d))" by simp
    then have yes: "(rid, eid) \<in> set (map trend_pair (trends d))" by force
    let ?ts' = "map (\<lambda>t. if ?P t then refreshed c now t else t) (trends d)"
    have keys: "map trend_pair ?ts' = map trend_pair (trends d)"
      by (simp add: pair)
    have "filter ?P (map (\<lambda>t. if ?P t then refreshed c now t else t) xs)
          = map (refreshed c now) (filter ?P xs)" for xs
      by (induction xs) (auto simp: pair)
    then have "filter ?P ?ts' = map (refreshed c now) (filter ?P (trends d))" .
    then have len1: "length (filter ?P ?ts') = 1" by (simp add: one)
    have u: "distinct (map trend_pair ?ts')"
      using assms by (simp only: keys trends_unique_def)
    have r: "upsert_trend d rid eid c now sn = Inr (d\<lparr>trends := ?ts'\<rparr>)"
      by (simp add: upsert_trend_eq one)
    show ?thesis
    proof (intro exI conjI)
      show "upsert_trend d rid eid c now sn = Inr (d\<lparr>trends := ?ts'\<rparr>)" by (rule r)
      show "if (rid, eid) \<in> set (map trend_pair (trends d))
            then trends (d\<lparr>trends := ?ts'\<rparr>) = ?ts'
            else trends (d\<lparr>trends := ?ts'\<rparr>) = trends d @ [appended d rid eid c sn]"
        using yes by simp
      show "length (filter ?P (trends (d\<lparr>trends := ?ts'\<rparr>))) = 1"
        using len1 by simp
      show "trends_unique (d\<lparr>trends := ?ts'\<rparr>)"
        using u by (simp add: trends_unique_def del: map_map)
    qed
  qed
qed

theorem upsert_trend_cases_witness:
  "trends_unique db1
   \<and> (\<exists>d'. upsert_trend db1 0 1 (2, 1, 1) 7 8 = Inr d'
          \<and> trends d' = [\<lparr>t_region_id = 0, t_event_id = 1, rank = 1, attendance_count = 2,
                            comments_count = 1, likes_count = 1, updated_at = 7\<rparr>,
                           \<lparr>t_region_id = 0, t_event_id = 2, rank = 2, attendance_count = 2,
                            comments_count = 2, likes_count = 0, updated_at = 1\<rparr>]
          \<and> trends_unique d')
   \<and> (\<exists>d'. upsert_trend db1 0 3 (0, 0, 1) 7 8 = Inr d'
          \<and> trends d' = trends db1 @
                           [\<lparr>t_region_id = 0, t_event_id = 3, rank = 3, attendance_count = 0,
                             comments_count = 0, likes_count = 1, updated_at = 8\<rparr>]
          \<and> trends_unique d')
   \<and> (\<exists>d'. upsert_trend (db1\<lparr>trends := []\<rparr>) 0 3 (0, 0, 1) 7 8 = Inr d'
          \<and> trends d' = [\<lparr>t_region_id = 0, t_event_id = 3, rank = 1, attendance_count = 0,
                             comments_count = 0, likes_count = 1, updated_at = 8\<rparr>])"
proof -
  have u: "trends_unique db1" by code_simp
  have u0: "trends_unique (db1\<lparr>trends := []\<rparr>)" by code_simp
  have a: "(0, 1) \<in> set (map trend_pair (trends db1))" by code_simp
  have a': "map (\<lambda>t. if trend_pair t = (0, 1) then refreshed (2, 1, 1) 7 t else t) (trends db1)
            = [\<lparr>t_region_id = 0, t_event_id = 1, rank = 1, attendance_count = 2,
                 comments_count = 1, likes_count = 1, updated_at = 7\<rparr>,
                \<lparr>t_region_id = 0, t_event_id = 2, rank = 2, attendance_count = 2,
                 comments_count = 2, likes_count = 0, updated_at = 1\<rparr>]"
    by code_simp
  have b: "(0, 3) \<notin> set (map trend_pair (trends db1))" by code_simp
  have b': "appended db1 0 3 (0, 0, 1) 8
            = \<lparr>t_region_id = 0, t_event_id = 3, rank = 3, attendance_count = 0,
                comments_count = 0, likes_count = 1, updated_at = 8\<rparr>"
    by code_simp
  have c: "(0, 3) \<notin> set (map trend_pair (trends (db1\<lparr>trends := []\<rparr>)))" by simp
  have c': "trends (db1\<lparr>trends := []\<rparr>) @ [appended (db1\<lparr>trends := []\<rparr>) 0 3 (0, 0, 1) 8]
            = [\<lparr>t_region_id = 0, t_event_id = 3, rank = 1, attendance_count = 0,
                 comments_count = 0, likes_count = 1, updated_at = 8\<rparr>]"
    by code_simp
  from upsert_trend_cases[OF u, of 0 1 "(2, 1, 1)" 7 8] a a'
  have 1: "\<exists>d'. upsert_trend db1 0 1 (2, 1, 1) 7 8 = Inr d'
          \<and> trends d' = [\<lparr>t_region_id = 0, t_event_id = 1, rank = 1, attendance_count = 2,
                            comments_count = 1, likes_count = 1, updated_at = 7\<rparr>,
                           \<lparr>t_region_id = 0, t_event_id = 2, rank = 2, attendance_count = 2,
                            comments_count = 2, likes_count = 0, updated_at = 1\<rparr>]
          \<and> trends_unique d'"
    by (metis (no_types, lifting))
  from upsert_trend_cases[OF u, of 0 3 "(0, 0, 1)" 7 8] b b'
  have 2: "\<exists>d'. upsert_trend db1 0 3 (0, 0, 1) 7 8 = Inr d'
          \<and> trends d' = trends db1 @
                           [\<lparr>t_region_id = 0, t_event_id = 3, rank = 3, attendance_count = 0,
                             comments_count = 0, likes_count = 1, updated_at = 8\<rparr>]
          \<and> trends_unique d'"
    by (metis (no_types, lifting))
  from upsert_trend_cases[OF u0, of 0 3 "(0, 0, 1)" 7 8] c c'
  have 3: "\<exists>d'. upsert_trend (db1\<lparr>trends := []\<rparr>) 0 3 (0, 0, 1) 7 8 = Inr d'
          \<and> trends d' = [\<lparr>t_region_id = 0, t_event_id = 3, rank = 1, attendance_count = 0,
                             comments_count = 0, likes_count = 1, updated_at = 8\<rparr>]"
    by (metis (no_types, lifting))
  from u 1 2 3 show ?thesis by blast
qed

subsection \<open>The reorder\<close>

lemma assign_fold_length:
  "length (fold (\<lambda>(rk, (i, t)) ts'. ts'[i := t\<lparr>rank := int rk\<rparr>]) ps ts) = length ts"
  by (induction ps arbitrary: ts) (auto simp: split_def)

lemma assign_fold_other:
  "j \<notin> (\<lambda>p. fst (snd p)) ` set ps \<Longrightarrow>
   fold (\<lambda>(rk, (i, t)) ts'. ts'[i := t\<lparr>rank := int rk\<rparr>]) ps ts ! j = ts ! j"
  by (induction ps arbitrary: ts) (auto simp: split_def)

lemma assign_fold_hit:
  "distinct (map (\<lambda>p. fst (snd p)) ps) \<Longrightarrow> (k, (i, t)) \<in> set ps \<Longrightarrow> i < length ts \<Longrightarrow>
   fold (\<lambda>(rk, (i, t)) ts'. ts'[i := t\<lparr>rank := int rk\<rparr>]) ps ts ! i = t\<lparr>rank := int k\<rparr>"
proof (induction ps arbitrary: ts)
  case Nil
  then show ?case by simp
next
  case (Cons p ps)
  show ?case
  proof (cases "p = (k, (i, t))")
    case True
    with Cons.prems have "i \<notin> (\<lambda>p. fst (snd p)) ` set ps" by auto
    then show ?thesis
      using Cons.prems(3) True by (simp add: assign_fold_other)
  next
    case False
    with Cons.prems have "(k, (i, t)) \<in> set ps" "distinct (map (\<lambda>p. fst (snd p)) ps)"
      by auto
    then show ?thesis
      using Cons.IH[of "(case p of (rk, (i, t)) \<Rightarrow> \<lambda>ts'. ts'[i := t\<lparr>rank := int rk\<rparr>]) ts"]
        Cons.prems(3)
      by (simp add: split_def)
  qed
qed

lemma map_fst_snd_enumerate:
  "map (\<lambda>p. fst (snd p)) (enumerate n rows) = map fst rows"
proof -
  have "map (\<lambda>p. fst (snd p)) xs = map fst (map snd xs)" for xs :: "(nat \<times> 'a \<times> 'b) list"
    by (induction xs) simp_all
  then have "map (\<lambda>p. fst (snd p)) (enumerate n rows) = map fst (map snd (enumerate n rows))" .
  then show ?thesis by (simp only: map_snd_enumerate)
qed

lemma length_assign_ranks [simp]: "length (assign_ranks rows ts) = length ts"
  by (simp add: assign_ranks_def assign_fold_length)

lemma assign_ranks_other:
  "j \<notin> fst ` set rows \<Longrightarrow> assign_ranks rows ts ! j = ts ! j"
proof -
  assume "j \<notin> fst ` set rows"
  moreover have "map (\<lambda>p. fst (snd p)) (enumerate 1 rows) = map fst rows"
    by (rule map_fst_snd_enumerate)
  then have "(\<lambda>p. fst (snd p)) ` set (enumerate 1 rows) = fst ` set rows"
    by (metis set_map)
  ultimately show ?thesis
    by (simp only: assign_ranks_def) (rule assign_fold_other, simp)
qed

lemma assign_ranks_hit:
  assumes "distinct (map fst rows)" "m < length rows" "fst (rows ! m) < length ts"
  shows "assign_ranks rows ts ! fst (rows ! m) = (snd (rows ! m))\<lparr>rank := int (Suc m)\<rparr>"
proof -
  have "map (\<lambda>p. fst (snd p)) (enumerate 1 rows) = map fst rows"
    by (rule map_fst_snd_enumerate)
  with assms(1) have d: "distinct (map (\<lambda>p. fst (snd p)) (enumerate 1 rows))"
    by simp
  have "enumerate 1 rows ! m = (Suc m, rows ! m)"
    using assms(2) by (simp add: nth_enumerate_eq)
  then have "(Suc m, (fst (rows ! m), snd (rows ! m))) \<in> set (enumerate 1 rows)"
    using assms(2) by (metis length_enumerate nth_mem prod.collapse)
  from assign_fold_hit[OF d this assms(3)] show ?thesis
    by (simp only: assign_ranks_def)
qed

lemma enumerate_nth: "enumerate 0 ts = map (\<lambda>j. (j, ts ! j)) [0..<length ts]"
proof -
  have "enumerate 0 (map (nth ts) [0..<length ts]) = map (\<lambda>j. (j, ts ! j)) [0..<length ts]"
    by (rule enumerate_map_upt)
  then show ?thesis by (simp only: map_nth)
qed

lemma filter_enumerate_fst:
  "map fst (filter (\<lambda>(i, t). P t) (enumerate 0 ts)) = filter (\<lambda>j. P (ts ! j)) [0..<length ts]"
  by (simp only: enumerate_nth filter_map map_map comp_def split_conv fst_conv map_ident)

lemma filter_as_nth:
  "filter P xs = map (nth xs) (filter (\<lambda>j. P (xs ! j)) [0..<length xs])"
proof -
  have "filter P (map (nth xs) [0..<length xs])
        = map (nth xs) (filter (P \<circ> nth xs) [0..<length xs])"
    by (rule filter_map)
  then show ?thesis by (simp only: map_nth comp_def)
qed

lemma mset_load_sorted:
  "mset (load_sorted d rid)
   = mset (filter (\<lambda>(i, t). t_region_id t = rid) (enumerate 0 (trends d)))"
  by (simp add: load_sorted_def)

lemma load_sorted_mem:
  assumes "(i, t) \<in> set (load_sorted d rid)"
  shows "i < length (trends d)" "trends d ! i = t" "t_region_id t = rid"
proof -
  from assms have "(i, t) \<in> set (filter (\<lambda>(i, t). t_region_id t = rid) (enumerate 0 (trends d)))"
    by (simp add: load_sorted_def)
  then show "i < length (trends d)" "trends d ! i = t" "t_region_id t = rid"
    by (auto simp: in_set_enumerate_eq)
qed

lemma mset_fst_load_sorted:
  "mset (map fst (load_sorted d rid))
   = mset (filter (\<lambda>j. t_region_id (trends d ! j) = rid) [0..<length (trends d)])"
proof -
  have "mset (map fst (load_sorted d rid))
        = mset (map fst (filter (\<lambda>(i, t). t_region_id t = rid) (enumerate 0 (trends d))))"
    by (simp only: mset_map mset_load_sorted)
  then show ?thesis by (simp only: filter_enumerate_fst)
qed

lemma distinct_fst_load_sorted: "distinct (map fst (load_sorted d rid))"
proof -
  have "distinct (filter (\<lambda>j. t_region_id (trends d ! j) = rid) [0..<length (trends d)])"
    by simp
  with mset_fst_load_sorted[of d rid] show ?thesis
    by (metis mset_eq_imp_distinct_iff)
qed

lemma sorted_load_sorted: "sorted (map trend_key (load_sorted d rid))"
  by (simp add: load_sorted_def)

lemma length_renumbered [simp]: "length (renumbered rows) = length rows"
  by (simp add: renumbered_def)

lemma renumbered_nth:
  "m < length rows \<Longrightarrow> renumbered rows ! m = (snd (rows ! m))\<lparr>rank := int (Suc m)\<rparr>"
  by (simp add: renumbered_def nth_enumerate_eq split_def)

lemma map_rank_renumbered: "map rank (renumbered rows) = map int [1..<Suc (length rows)]"
  by (rule nth_equalityI) (simp_all add: renumbered_nth del: upt_Suc)

lemma renumbered_keys:
  "map (\<lambda>t. order_key (entry_of t)) (renumbered rows) = map trend_key rows"
  by (rule nth_equalityI) (simp_all add: renumbered_nth trend_key_def entry_of_def split_def)

lemma reorder_nth:
  assumes "m < length (load_sorted d rid)"
  shows "assign_ranks (load_sorted d rid) (trends d) ! fst (load_sorted d rid ! m)
         = renumbered (load_sorted d rid) ! m"
proof -
  let ?L = "load_sorted d rid"
  have "(fst (?L ! m), snd (?L ! m)) \<in> set ?L" using assms by simp
  then have "fst (?L ! m) < length (trends d)" by (rule load_sorted_mem)
  with assms show ?thesis
    by (simp add: assign_ranks_hit distinct_fst_load_sorted renumbered_nth)
qed

lemma reorder_rank_only:
  assumes "j < length (trends d)"
  shows "unranked (assign_ranks (load_sorted d rid) (trends d) ! j) = unranked (trends d ! j)"
proof (cases "j \<in> fst ` set (load_sorted d rid)")
  case False
  then show ?thesis by (simp add: assign_ranks_other)
next
  case True
  let ?L = "load_sorted d rid"
  from True obtain m where m: "m < length ?L" "fst (?L ! m) = j"
    by (metis (no_types, lifting) image_iff in_set_conv_nth)
  then have "(j, snd (?L ! m)) \<in> set ?L" by (metis nth_mem prod.collapse)
  then have "trends d ! j = snd (?L ! m)" by (rule load_sorted_mem)
  moreover have "assign_ranks ?L (trends d) ! j = (snd (?L ! m))\<lparr>rank := int (Suc m)\<rparr>"
    using reorder_nth[OF m(1)] m by (simp add: renumbered_nth)
  ultimately show ?thesis by (simp add: unranked_def counts_of_def)
qed

lemma reorder_region:
  "j < length (trends d) \<Longrightarrow>
   t_region_id (assign_ranks (load_sorted d rid) (trends d) ! j) = t_region_id (trends d ! j)"
  using reorder_rank_only[of j d rid] by (simp add: unranked_def)

lemma mset_region_reorder:
  "mset (region_trends (reorder_trends d rid) rid) = mset (renumbered (load_sorted d rid))"
proof -
  let ?L = "load_sorted d rid"
  let ?ts' = "assign_ranks ?L (trends d)"
  let ?n = "length (trends d)"
  have "filter (\<lambda>j. t_region_id (?ts' ! j) = rid) [0..<?n]
        = filter (\<lambda>j. t_region_id (trends d ! j) = rid) [0..<?n]"
    by (rule filter_cong) (simp_all add: reorder_region)
  then have "region_trends (reorder_trends d rid) rid
        = map (nth ?ts') (filter (\<lambda>j. t_region_id (trends d ! j) = rid) [0..<?n])"
    using filter_as_nth[of "\<lambda>t. t_region_id t = rid" ?ts']
    by (simp add: region_trends_def reorder_trends_def)
  then have "mset (region_trends (reorder_trends d rid) rid)
        = mset (map (nth ?ts') (map fst ?L))"
    using mset_fst_load_sorted[of d rid] by (metis mset_map)
  also have "map (nth ?ts') (map fst ?L) = map (\<lambda>p. ?ts' ! fst p) ?L"
    by (simp add: comp_def)
  also have "map (\<lambda>p. ?ts' ! fst p) ?L = renumbered ?L"
    by (rule nth_equalityI) (simp_all add: reorder_nth)
  finally show ?thesis .
qed

lemma renumbered_order:
  assumes "t1 \<in> set (renumbered (load_sorted d rid))"
    and "t2 \<in> set (renumbered (load_sorted d rid))"
    and "rank t1 < rank t2"
  shows "lex_ge (counts_of t1) (counts_of t2)"
proof -
  let ?Y = "renumbered (load_sorted d rid)"
  from assms(1) obtain k1 where k1: "k1 < length ?Y" "?Y ! k1 = t1"
    by (auto simp: in_set_conv_nth)
  from assms(2) obtain k2 where k2: "k2 < length ?Y" "?Y ! k2 = t2"
    by (auto simp: in_set_conv_nth)
  have "rank t1 = int (Suc k1)" "rank t2 = int (Suc k2)"
    using k1 k2 by (auto simp: renumbered_nth)
  with assms(3) have "k1 \<le> k2" by simp
  moreover have "sorted (map (\<lambda>t. order_key (entry_of t)) ?Y)"
    by (simp only: renumbered_keys sorted_load_sorted)
  ultimately have "order_key (entry_of (?Y ! k1)) \<le> order_key (entry_of (?Y ! k2))"
    using k1(1) k2(1) by (simp add: sorted_iff_nth_mono)
  then show ?thesis by (simp add: k1 k2 order_key_le_iff)
qed

lemma update_trends_success:
  assumes "parse_region_param (ub_region p) = Inr rid"
    and "update_trends d p now sn = (d', Inr SuccessResponse)"
  shows "\<exists>ev d1. db_get_event d (ub_event_id p) = Some ev \<and> e_region_id ev = rid
           \<and> upsert_trend d rid (ub_event_id p) (live_counts d (ub_event_id p)) now sn = Inr d1
           \<and> d' = reorder_trends d1 rid"
proof -
  from assms obtain ev where ev: "db_get_event d (ub_event_id p) = Some ev" "e_region_id ev = rid"
    by (auto simp: update_trends_def split: option.splits if_splits)
  from ev(1) have "ev \<in> set (events d)" "e_id ev = ub_event_id p"
    by (auto simp: db_get_event_def find_Some_iff)
  with ev(2) have "ub_event_id p \<in> region_event_ids d rid"
    unfolding region_event_ids_def by (intro image_eqI[of _ _ ev]) auto
  then have "dict_get (get_event_interaction_counts d rid) (ub_event_id p) (0, 0, 0)
             = live_counts d (ub_event_id p)"
    by (simp add: dict_get_def counts_map_of)
  with assms ev show ?thesis
    by (auto simp: update_trends_def Let_def split: sum.splits)
qed

text \<open>
  Claim C2. After a successful update the ranks of the rows of the region are a permutation
  of 1 to N, N being the number of these rows, and the ranks follow the stored counts of all
  the rows: a row with a smaller rank has a triple (attendance, comments, likes) that is at
  least the triple of a row with a larger rank.
\<close>

theorem update_trends_renumbers:
  assumes "parse_region_param (ub_region p) = Inr rid"
    and "update_trends d p now sn = (d', Inr SuccessResponse)"
  shows "mset (map rank (region_trends d' rid))
           = mset (map int [1..<Suc (length (region_trends d' rid))])
       \<and> (\<forall>t1 \<in> set (region_trends d' rid). \<forall>t2 \<in> set (region_trends d' rid).
             rank t1 < rank t2 \<longrightarrow> lex_ge (counts_of t1) (counts_of t2))"
proof -
  from update_trends_success[OF assms] obtain d1 where d': "d' = reorder_trends d1 rid"
    by blast
  let ?Y = "renumbered (load_sorted d1 rid)"
  have m: "mset (region_trends d' rid) = mset ?Y"
    unfolding d' by (rule mset_region_reorder)
  then have len: "length (region_trends d' rid) = length ?Y"
    by (rule mset_eq_length)
  have "mset (map rank (region_trends d' rid)) = mset (map rank ?Y)"
    by (simp only: mset_map m)
  then have 1: "mset (map rank (region_trends d' rid))
           = mset (map int [1..<Suc (length (region_trends d' rid))])"
    by (simp only: map_rank_renumbered len length_renumbered)
  from m have s: "set (region_trends d' rid) = set ?Y" by (rule mset_eq_setD)
  have 2: "\<forall>t1 \<in> set (region_trends d' rid). \<forall>t2 \<in> set (region_trends d' rid).
             rank t1 < rank t2 \<longrightarrow> lex_ge (counts_of t1) (counts_of t2)"
    unfolding s by (intro ballI impI) (rule renumbered_order)
  from 1 2 show ?thesis ..
qed

theorem update_trends_renumbers_witness:
  "parse_region_param (ub_region upd1) = Inr 0
   \<and> snd (update_trends db1 upd1 7 8) = Inr SuccessResponse
   \<and> map rank (region_trends (fst (update_trends db1 upd1 7 8)) 0) = [2, 1]
   \<and> map counts_of (region_trends (fst (update_trends db1 upd1 7 8)) 0) = [(2, 1, 1), (2, 2, 0)]
   \<and> mset (map rank (region_trends (fst (update_trends db1 upd1 7 8)) 0)) = mset [1, 2]
   \<and> lex_ge (counts_of (region_trends (fst (update_trends db1 upd1 7 8)) 0 ! 1))
             (counts_of (region_trends (fst (update_trends db1 upd1 7 8)) 0 ! 0))"
proof -
  let ?d' = "fst (update_trends db1 upd1 7 8)"
  let ?rs = "region_trends ?d' 0"
  have a: "parse_region_param (ub_region upd1) = Inr 0" by code_simp
  have b: "snd (update_trends db1 upd1 7 8) = Inr SuccessResponse" by code_simp
  then have b': "update_trends db1 upd1 7 8 = (?d', Inr SuccessResponse)"
    by (metis prod.collapse)
  have c: "map rank ?rs = [2, 1]" by code_simp
  have e: "map counts_of ?rs = [(2, 1, 1), (2, 2, 0)]" by code_simp
  have l: "map int [1..<Suc (length ?rs)] = [1, 2]" by code_simp
  have m: "?rs ! 1 \<in> set ?rs" "?rs ! 0 \<in> set ?rs" "rank (?rs ! 1) < rank (?rs ! 0)"
    by code_simp+
  note t = update_trends_renumbers[OF a b']
  from t have "mset (map rank ?rs) = mset (map int [1..<Suc (length ?rs)])"
    by (rule conjunct1)
  then have g1: "mset (map rank ?rs) = mset [1, 2]" by (simp only: l)
  from t have "\<forall>t1 \<in> set ?rs. \<forall>t2 \<in> set ?rs.
      rank t1 < rank t2 \<longrightarrow> lex_ge (counts_of t1) (counts_of t2)"
    by (rule conjunct2)
  with m have g2: "lex_ge (counts_of (?rs ! 1)) (counts_of (?rs ! 0))" by blast
  from a b c e g1 g2 show ?thesis by blast
qed

subsection \<open>What the update leaves alone\<close>






end
